theory Spec2Isabelle
  imports Complex_Main "HOL-Library.Log_Nat"
begin

section \<open>Dual numbers of DualNumber.hpp\<close>

text \<open>
  The header defines the class template \<open>dual<T>\<close>: a pair of two members \<open>m_a\<close> (the
  real part) and \<open>m_b\<close> (the coefficient of \<open>\<epsilon>\<close>) of the component type \<open>T\<close>, with
  arithmetic, comparison, inversion, conjugation and a library of elementary and
  cylinder functions on top.

  The component type is a template parameter. It is modelled by a type of a suitable
  class: a field for the arithmetic, a linear order for the comparisons, the reals for
  the functions of the math library. There the arithmetic is exact. Where a property
  depends on the rounding of a floating type, the component type \<open>double\<close> is
  modelled with its rounding (see below).
\<close>

subsection \<open>What a call can do\<close>

text \<open>
  In a field the quotient by zero does not exist. The floating types give an
  infinity or a NaN there and go on; they raise no exception. The outcome of a call is
  therefore one of three: it returns a number (a dual number) of the model, or it
  returns something that is no number of the field (\<open>Unspecified\<close>), or it raises an
  error. The header contains no \<open>throw\<close>, no assertion and no test of a divisor, so no
  definition below builds \<open>Raises\<close>. The model does not follow an infinity or a NaN
  through the operations after it: \<open>Unspecified\<close> says that some operation of the
  call gave one, and nothing about the components of the result.
\<close>

datatype error = DivideByZero | DomainError

datatype 'a outcome = Returns 'a | Unspecified | Raises error

text \<open>Sequencing: the statements after one that left the field keep the outcome.\<close>

fun and_then :: "'a outcome \<Rightarrow> ('a \<Rightarrow> 'b outcome) \<Rightarrow> 'b outcome" where
  "and_then (Returns x) k = k x"
| "and_then Unspecified k = Unspecified"
| "and_then (Raises e) k = Raises e"

text \<open>The division of the component type, \<open>x / y\<close> and \<open>x /= y\<close> on \<open>T\<close>.\<close>

definition scalar_div :: "'a::field \<Rightarrow> 'a \<Rightarrow> 'a outcome" where
  "scalar_div x y = (if y = 0 then Unspecified else Returns (x / y))"

subsection \<open>The class \<open>dual<T>\<close>\<close>

record 'a dual =
  m_a :: 'a
  m_b :: 'a

text \<open>
  A member function that changes \<open>*this\<close> and returns \<open>*this\<close> is a function from the
  object before the call to the object after it. Where the value returned is not the
  object after the call (the postfix operators, the free functions on a reference),
  the model returns the pair (object after the call, value returned).
\<close>

text \<open>\<open>Zero()\<close>, \<open>ID_Add()\<close> and \<open>ID_Mul()\<close>, lines 52 to 70.\<close>

definition Zero :: "'a::field dual" where
  "Zero = \<lparr>m_a = 0, m_b = 0\<rparr>"

definition ID_Add :: "'a::field dual" where
  "ID_Add = Zero"

definition ID_Mul :: "'a::field dual" where
  "ID_Mul = \<lparr>m_a = 0, m_b = 0\<rparr>"

text \<open>The constructor \<open>dual(T a, T b = T(0.0))\<close> with the second argument left out.\<close>

definition dual_of :: "'a::zero \<Rightarrow> 'a dual" where
  "dual_of a = \<lparr>m_a = a, m_b = 0\<rparr>"

text \<open>
  \<open>operator==\<close> and \<open>operator<\<close> compare \<open>std::tie(m_a, m_b)\<close>. The comparison of
  tuples of the standard library is lexicographic and uses only \<open><\<close> of the
  components: \<open>t < u\<close> is \<open>t0 < u0 || (!(u0 < t0) && t1 < u1)\<close>.
\<close>

definition tie_eq :: "'a \<times> 'a \<Rightarrow> 'a \<times> 'a \<Rightarrow> bool" where
  "tie_eq t u = (fst t = fst u \<and> snd t = snd u)"

definition tie_less :: "('a::ord) \<times> 'a \<Rightarrow> 'a \<times> 'a \<Rightarrow> bool" where
  "tie_less t u = (fst t < fst u \<or> (\<not> fst u < fst t \<and> snd t < snd u))"

definition operator_eq :: "'a dual \<Rightarrow> 'a dual \<Rightarrow> bool" where
  "operator_eq lhs rhs = tie_eq (m_a lhs, m_b lhs) (m_a rhs, m_b rhs)"

definition operator_less :: "('a::ord) dual \<Rightarrow> 'a dual \<Rightarrow> bool" where
  "operator_less lhs rhs = tie_less (m_a lhs, m_b lhs) (m_a rhs, m_b rhs)"

text \<open>The free comparison operators, lines 258 to 276.\<close>

definition operator_neq :: "'a dual \<Rightarrow> 'a dual \<Rightarrow> bool" where
  "operator_neq lhs rhs = (\<not> operator_eq lhs rhs)"

definition operator_le :: "('a::ord) dual \<Rightarrow> 'a dual \<Rightarrow> bool" where
  "operator_le lhs rhs = (operator_eq lhs rhs \<or> operator_less lhs rhs)"

definition operator_gt :: "('a::ord) dual \<Rightarrow> 'a dual \<Rightarrow> bool" where
  "operator_gt lhs rhs = operator_less rhs lhs"

definition operator_ge :: "('a::ord) dual \<Rightarrow> 'a dual \<Rightarrow> bool" where
  "operator_ge lhs rhs = (operator_eq lhs rhs \<or> operator_gt lhs rhs)"

text \<open>Prefix \<open>++\<close> and \<open>--\<close> (members, lines 126 to 134): \<open>++m_a\<close>, \<open>--m_a\<close>.\<close>

definition pre_increment :: "'a::field dual \<Rightarrow> 'a dual" where
  "pre_increment d = d\<lparr>m_a := m_a d + 1\<rparr>"

definition pre_decrement :: "'a::field dual \<Rightarrow> 'a dual" where
  "pre_decrement d = d\<lparr>m_a := m_a d - 1\<rparr>"

text \<open>
  Postfix \<open>++\<close> and \<open>--\<close> (free functions on a reference, lines 278 to 290): copy,
  apply the prefix operator to the argument, return the copy.
\<close>

definition post_increment :: "'a::field dual \<Rightarrow> 'a dual \<times> 'a dual" where
  "post_increment d = (let copy = d; d' = pre_increment d in (d', copy))"

definition post_decrement :: "'a::field dual \<Rightarrow> 'a dual \<times> 'a dual" where
  "post_decrement d = (let copy = d; d' = pre_decrement d in (d', copy))"

text \<open>
  \<open>operator*=\<close> on a dual number, lines 162 to 169, statement by statement. Here and
  in \<open>operator/=\<close> the argument \<open>rhs\<close> is an object other than \<open>*this\<close>, as it is in
  every call from \<open>operator*\<close> and \<open>operator/\<close>, which work on a fresh copy of \<open>lhs\<close>.
\<close>

definition operator_mul_assign :: "'a::field dual \<Rightarrow> 'a dual \<Rightarrow> 'a dual" where
  "operator_mul_assign this rhs =
     (let s1 = this\<lparr>m_b := m_b this * m_a rhs\<rparr>;
          s2 = s1\<lparr>m_b := m_b s1 + m_a s1 * m_b rhs\<rparr>;
          s3 = s2\<lparr>m_a := m_a s2 * m_a rhs\<rparr>
      in s3)"

text \<open>\<open>operator*\<close> on two dual numbers: \<open>dual<T>{lhs} *= rhs\<close>.\<close>

definition operator_mul :: "'a::field dual \<Rightarrow> 'a dual \<Rightarrow> 'a dual" where
  "operator_mul lhs rhs = operator_mul_assign lhs rhs"

text \<open>
  \<open>operator/=\<close> on a dual number, lines 178 to 186, statement by statement: two
  divisions of the component type, by \<open>rhs.m_a * rhs.m_a\<close> and by \<open>rhs.m_a\<close>.
\<close>

definition operator_div_assign :: "'a::field dual \<Rightarrow> 'a dual \<Rightarrow> 'a dual outcome" where
  "operator_div_assign this rhs =
     (let s1 = this\<lparr>m_b := m_b this * m_a rhs\<rparr>;
          s2 = s1\<lparr>m_b := m_b s1 - m_a s1 * m_b rhs\<rparr>
      in and_then (scalar_div (m_b s2) (m_a rhs * m_a rhs)) (\<lambda>q1.
           let s3 = s2\<lparr>m_b := q1\<rparr>
           in and_then (scalar_div (m_a s3) (m_a rhs)) (\<lambda>q2.
                Returns (s3\<lparr>m_a := q2\<rparr>))))"

text \<open>
  \<open>operator/\<close> on two dual numbers, \<open>dual<T>{lhs} /= rhs\<close>, and on a number and a
  dual number, where \<open>dual<T>{lhs}\<close> is the constructor with \<open>b\<close> left out.
\<close>

definition operator_div :: "'a::field dual \<Rightarrow> 'a dual \<Rightarrow> 'a dual outcome" where
  "operator_div lhs rhs = operator_div_assign lhs rhs"

definition operator_div_scalar_dual :: "'a::field \<Rightarrow> 'a dual \<Rightarrow> 'a dual outcome" where
  "operator_div_scalar_dual lhs rhs = operator_div_assign (dual_of lhs) rhs"

text \<open>
  The member \<open>inverted()\<close>, lines 218 to 223: \<open>m_a = T(1.0) / m_a\<close>, then
  \<open>m_b /= -(m_a * m_a)\<close>, which reads the \<open>m_a\<close> just stored. The member
  \<open>inverse()\<close>, lines 200 to 202, calls it and returns nothing.
\<close>

definition inverted :: "'a::field dual \<Rightarrow> 'a dual outcome" where
  "inverted this =
     and_then (scalar_div 1 (m_a this)) (\<lambda>q1.
       let s1 = this\<lparr>m_a := q1\<rparr>
       in and_then (scalar_div (m_b s1) (- (m_a s1 * m_a s1))) (\<lambda>q2.
            Returns (s1\<lparr>m_b := q2\<rparr>)))"

definition inverse_member :: "'a::field dual \<Rightarrow> 'a dual outcome" where
  "inverse_member this = inverted this"

text \<open>The members \<open>conjugated()\<close>, lines 231 to 234, and \<open>conjugate()\<close>, lines 208 to 210.\<close>

definition conjugated :: "'a::field dual \<Rightarrow> 'a dual" where
  "conjugated this = this\<lparr>m_b := - m_b this\<rparr>"


text \<open>
  The free functions \<open>inverted(dual<T>&)\<close> and \<open>conjugated(dual<T>&)\<close>, lines 372 to
  388: they call the member on the argument, which is a reference, and return a copy
  of the argument. The pair is (argument after the call, value returned).
\<close>

definition inverted_free :: "'a::field dual \<Rightarrow> ('a dual \<times> 'a dual) outcome" where
  "inverted_free d = and_then (inverse_member d) (\<lambda>d'. Returns (d', d'))"


subsection \<open>Functions of the math library on dual numbers\<close>

text \<open>
  The functions \<open>std::pow\<close> and \<open>std::log\<close> and the cylinder functions of the
  standard library are not part of the header: they are parameters here, as the
  cylinder function is a parameter (\<open>bessel\<close>) of the header's own helper.
\<close>

text \<open>\<open>pow\<close> on two dual numbers, lines 412 to 420.\<close>

definition pow_dual_dual ::
  "(real \<Rightarrow> real \<Rightarrow> real) \<Rightarrow> (real \<Rightarrow> real) \<Rightarrow> real dual \<Rightarrow> real dual \<Rightarrow> real dual" where
  "pow_dual_dual std_pow std_log f y =
     (let real' = std_pow (m_a f) (m_b y);
          dpow_y = m_a y * std_pow (m_a f) (m_a y - 1);
          dpow_f = real' * std_log (m_a f)
      in \<lparr>m_a = real', m_b = dpow_y * m_b f + dpow_f * m_b y\<rparr>)"

text \<open>\<open>calculateBesselFunctions\<close>, lines 610 to 622.\<close>

definition calculateBesselFunctions ::
  "real \<Rightarrow> real dual \<Rightarrow> (real \<Rightarrow> real \<Rightarrow> real) \<Rightarrow> real dual" where
  "calculateBesselFunctions nu x bessel =
     (if nu = 0
      then \<lparr>m_a = bessel 0 (m_a x), m_b = - m_b x * bessel 0 (m_a x)\<rparr>
      else \<lparr>m_a = bessel nu (m_a x),
            m_b = (1 / 2) * m_b x * (bessel (nu - 1) (m_a x) - bessel (nu + 1) (m_a x))\<rparr>)"

text \<open>
  \<open>cyl_bessel_j\<close>, lines 667 to 672, and \<open>cyl_neumann\<close>, lines 706 to 711: the helper
  applied to a lambda that calls the function of the standard library. The variants
  for \<open>float\<close> and \<open>long double\<close> differ in the precision only.
\<close>

definition cyl_bessel_j :: "(real \<Rightarrow> real \<Rightarrow> real) \<Rightarrow> real \<Rightarrow> real dual \<Rightarrow> real dual" where
  "cyl_bessel_j std_cyl_bessel_j nu x =
     calculateBesselFunctions nu x (\<lambda>nu x. std_cyl_bessel_j nu x)"

definition cyl_neumann :: "(real \<Rightarrow> real \<Rightarrow> real) \<Rightarrow> real \<Rightarrow> real dual \<Rightarrow> real dual" where
  "cyl_neumann std_cyl_neumann nu x =
     calculateBesselFunctions nu x (\<lambda>nu x. std_cyl_neumann nu x)"

subsection \<open>The component type \<open>double\<close>\<close>

text \<open>
  The header instantiates \<open>dual\<close> with \<open>float\<close>, \<open>double\<close> and \<open>long double\<close>. The
  finite values of \<open>double\<close> (IEEE 754 binary64) are rational numbers, and each
  operation returns the exact result rounded to the nearest value of the type, to the
  one with the even last digit when two are equally near. The exact result \<open>x\<close> with
  \<open>2 ^ e \<le> |x| < 2 ^ (e + 1)\<close> is rounded to a multiple of \<open>2 ^ (e - 52)\<close>, and below
  \<open>2 ^ - 1022\<close> to a multiple of \<open>2 ^ - 1074\<close>; a rounded result of magnitude
  \<open>2 ^ 1024\<close> or more is an infinity.
\<close>

definition pow2 :: "int \<Rightarrow> rat" where
  "pow2 e = 2 powi e"

definition round_half_even :: "rat \<Rightarrow> int" where
  "round_half_even x =
     (let f = \<lfloor>x\<rfloor>; r = x - of_int f
      in if r < 1 / 2 then f else if 1 / 2 < r then f + 1 else if even f then f else f + 1)"

text \<open>The \<open>e\<close> with \<open>2 ^ e \<le> |x| < 2 ^ (e + 1)\<close>, from the lengths of numerator and denominator.\<close>

definition binade :: "rat \<Rightarrow> int" where
  "binade x =
     (let (n, d) = quotient_of \<bar>x\<bar>;
          k = bitlen n - bitlen d
      in if pow2 k \<le> \<bar>x\<bar> then k else k - 1)"

definition round_to_double :: "rat \<Rightarrow> rat outcome" where
  "round_to_double x =
     (if x = 0 then Returns 0
      else let e = max (binade x) (- 1022);
               q = pow2 (e - 52);
               y = of_int (round_half_even (x / q)) * q
           in if pow2 1024 \<le> \<bar>y\<bar> then Unspecified else Returns y)"

text \<open>\<open>x / y\<close> and \<open>x * y\<close> on \<open>double\<close>. The negation of a \<open>double\<close> is exact.\<close>

definition double_div :: "rat \<Rightarrow> rat \<Rightarrow> rat outcome" where
  "double_div x y = (if y = 0 then Unspecified else round_to_double (x / y))"

definition double_mul :: "rat \<Rightarrow> rat \<Rightarrow> rat outcome" where
  "double_mul x y = round_to_double (x * y)"

text \<open>
  The member \<open>inverted()\<close> of \<open>dual<double>\<close>, lines 218 to 223, with the operations of
  \<open>double\<close>: the division \<open>T(1.0) / m_a\<close>, then the product \<open>m_a * m_a\<close> of the new
  \<open>m_a\<close>, its negation, and the division of \<open>m_b\<close> by it.
\<close>

definition inverted_double :: "rat dual \<Rightarrow> rat dual outcome" where
  "inverted_double this =
     and_then (double_div 1 (m_a this)) (\<lambda>q1.
       let s1 = this\<lparr>m_a := q1\<rparr>
       in and_then (double_mul (m_a s1) (m_a s1)) (\<lambda>t.
            and_then (double_div (m_b s1) (- t)) (\<lambda>q2.
              Returns (s1\<lparr>m_b := q2\<rparr>))))"

text \<open>
  Two predicates for the analysis of the rounding: a magnitude between two powers of
  two, and a factor between \<open>1 - 2 ^ - 53\<close> and \<open>1 + 2 ^ - 53\<close>, which is what one
  rounding multiplies an exact result by.
\<close>

definition magnitude_within :: "int \<Rightarrow> int \<Rightarrow> rat \<Rightarrow> bool" where
  "magnitude_within i j x = (pow2 i \<le> \<bar>x\<bar> \<and> \<bar>x\<bar> \<le> pow2 j)"

definition rounding_factor :: "rat \<Rightarrow> bool" where
  "rounding_factor r = (1 - pow2 (- 53) \<le> r \<and> r \<le> 1 + pow2 (- 53))"

section \<open>What the operations compute\<close>

text \<open>
  The member \<open>inverted()\<close> on a dual number with a nonzero real part: the second
  statement divides by the square of the new \<open>m_a\<close>, which is \<open>1 / a\<close>.
\<close>

lemma inverted_returns:
  "a \<noteq> 0 \<Longrightarrow> inverted \<lparr>m_a = a, m_b = b\<rparr> = Returns \<lparr>m_a = 1 / a, m_b = - (b * a\<^sup>2)\<rparr>"
  by (simp add: inverted_def scalar_div_def power2_eq_square field_simps)

lemma inverted_zero: "inverted \<lparr>m_a = 0, m_b = b\<rparr> = Unspecified"
  by (simp add: inverted_def scalar_div_def)

lemma operator_div_assign_returns:
  "c \<noteq> 0 \<Longrightarrow> operator_div_assign \<lparr>m_a = a, m_b = b\<rparr> \<lparr>m_a = c, m_b = d\<rparr>
     = Returns \<lparr>m_a = a / c, m_b = (b * c - a * d) / c\<^sup>2\<rparr>"
  by (simp add: operator_div_assign_def scalar_div_def power2_eq_square)

lemma operator_div_assign_zero:
  "operator_div_assign p \<lparr>m_a = 0, m_b = d\<rparr> = Unspecified"
  by (simp add: operator_div_assign_def scalar_div_def)

section \<open>Inversion\<close>

text \<open>
  C1. The claim: for every dual number \<open>(a, b)\<close> with \<open>a \<noteq> 0\<close> the inversion returns
  \<open>(1 / a, - b / a\<^sup>2)\<close>. The code at \<open>(2, 1)\<close>: it returns \<open>(1 / 2, - 4)\<close>, and
  \<open>- 4\<close> is not \<open>- 1 / 2\<^sup>2\<close>. The value component is as claimed; the derivative
  component is \<open>- b * a\<^sup>2\<close>.
\<close>

theorem inverted_at_2_1:
  "inverted \<lparr>m_a = 2, m_b = 1\<rparr> = Returns \<lparr>m_a = 1 / 2, m_b = - (4::real)\<rparr>
   \<and> inverse_member \<lparr>m_a = 2, m_b = 1\<rparr> = Returns \<lparr>m_a = 1 / 2, m_b = - (4::real)\<rparr>
   \<and> inverted_free \<lparr>m_a = 2, m_b = 1\<rparr>
       = Returns (\<lparr>m_a = 1 / 2, m_b = - (4::real)\<rparr>, \<lparr>m_a = 1 / 2, m_b = - 4\<rparr>)
   \<and> - (4::real) \<noteq> - 1 / 2\<^sup>2"
  by (simp add: inverted_free_def inverse_member_def inverted_def scalar_div_def)

section \<open>Power\<close>

text \<open>
  C2. The claim: for \<open>f = (fa, fb)\<close> with \<open>fa > 0\<close> and \<open>y = (ya, yb)\<close>, \<open>pow(f, y)\<close> has
  the value component \<open>fa ^ ya\<close> and the derivative component
  \<open>fa ^ ya * (yb * ln fa + ya * fb / fa)\<close>. The code raises \<open>fa\<close> to \<open>yb\<close>, whatever
  the power function is; with the real power and logarithm, at \<open>f = (2, 0)\<close> and
  \<open>y = (3, 1)\<close> it returns \<open>(2, 2 * ln 2)\<close>, where the claim has \<open>(8, 8 * ln 2)\<close>.
\<close>

theorem pow_at_2_0_3_1:
  "m_a (pow_dual_dual std_pow std_log f y) = std_pow (m_a f) (m_b y)
   \<and> pow_dual_dual (powr) ln \<lparr>m_a = 2, m_b = 0\<rparr> \<lparr>m_a = 3, m_b = 1\<rparr>
       = \<lparr>m_a = 2, m_b = 2 * ln 2\<rparr>
   \<and> (2::real) \<noteq> 2 powr 3
   \<and> 2 * ln (2::real) \<noteq> 2 powr 3 * (1 * ln 2 + 3 * 0 / 2)"
proof -
  have "ln (2::real) > 0" by simp
  then show ?thesis by (simp add: pow_dual_dual_def Let_def)
qed

section \<open>Cylinder functions at order zero\<close>

text \<open>
  C3. The claim: at order \<open>0\<close> the derivative component of a Bessel function of the
  first or second kind at \<open>x = (a, b)\<close> is \<open>- b * Z1(a)\<close>, with \<open>Z1\<close> the function of
  order \<open>1\<close>. The code, for every function \<open>j\<close> and \<open>n\<close> of the standard library: the
  derivative component is \<open>- b * Z0(a)\<close>, with the function of order \<open>0\<close>; at
  \<open>x = (1, 1)\<close> it is \<open>- J0(1)\<close>, which is \<open>- J1(1)\<close> only if \<open>J0(1) = J1(1)\<close>.
\<close>

theorem bessel_order_zero_uses_order_zero:
  "m_b (cyl_bessel_j j 0 x) = - m_b x * j 0 (m_a x)
   \<and> m_b (cyl_neumann n 0 x) = - m_b x * n 0 (m_a x)
   \<and> cyl_bessel_j j 0 \<lparr>m_a = 1, m_b = 1\<rparr> = \<lparr>m_a = j 0 1, m_b = - j 0 1\<rparr>
   \<and> (m_b (cyl_bessel_j j 0 \<lparr>m_a = 1, m_b = 1\<rparr>) = - j 1 1) = (j 0 1 = j 1 1)"
  by (simp add: cyl_bessel_j_def cyl_neumann_def calculateBesselFunctions_def)

section \<open>Division\<close>

text \<open>
  C4. For all dual numbers \<open>(a, b)\<close> and \<open>(c, d)\<close> with \<open>c \<noteq> 0\<close> the division returns
  \<open>(a / c, (b * c - a * d) / c\<^sup>2)\<close>; the constant \<open>(1, 0)\<close> divided by \<open>(c, 1)\<close>, and
  the number \<open>1\<close> divided by \<open>(c, 1)\<close>, have the derivative component \<open>- 1 / c\<^sup>2\<close>.
\<close>

theorem division_quotient_rule:
  "c \<noteq> 0 \<Longrightarrow>
     operator_div \<lparr>m_a = a, m_b = b\<rparr> \<lparr>m_a = c, m_b = d\<rparr>
       = Returns \<lparr>m_a = a / c, m_b = (b * c - a * d) / c\<^sup>2\<rparr>
     \<and> operator_div (dual_of 1) \<lparr>m_a = c, m_b = 1\<rparr>
       = Returns \<lparr>m_a = 1 / c, m_b = - 1 / c\<^sup>2\<rparr>
     \<and> operator_div_scalar_dual 1 \<lparr>m_a = c, m_b = 1\<rparr>
       = Returns \<lparr>m_a = 1 / c, m_b = - 1 / c\<^sup>2\<rparr>"
  by (simp add: operator_div_def operator_div_scalar_dual_def dual_of_def
      operator_div_assign_returns)

text \<open>C4 at \<open>(1, 1) / (2, 3)\<close> and at \<open>(1, 0) / (2, 1)\<close>, which is \<open>(0.5, - 0.25)\<close>.\<close>

theorem division_quotient_rule_witness:
  "(2::real) \<noteq> 0
   \<and> operator_div \<lparr>m_a = 1, m_b = 1\<rparr> \<lparr>m_a = 2, m_b = 3\<rparr>
       = Returns \<lparr>m_a = 1 / 2, m_b = - 1 / (4::real)\<rparr>
   \<and> operator_div (dual_of 1) \<lparr>m_a = 2, m_b = 1\<rparr>
       = Returns \<lparr>m_a = 1 / 2, m_b = - 1 / (4::real)\<rparr>
   \<and> operator_div_scalar_dual 1 \<lparr>m_a = 2, m_b = 1\<rparr>
       = Returns \<lparr>m_a = 1 / 2, m_b = - 1 / (4::real)\<rparr>"
  using division_quotient_rule [of "2::real" 1 1 3] by simp

section \<open>Division by zero\<close>

text \<open>
  C5 as the claim states it: dividing by a dual number with the value component \<open>0\<close>,
  and inverting one, signals \<open>DivideByZero\<close> or \<open>DomainError\<close>. At \<open>(1, 1) / (0, 0)\<close>
  and at the inversion of \<open>(0, 1)\<close> the code raises neither: it divides by zero in the
  component type and returns.
\<close>

theorem division_by_zero_not_raised:
  "operator_div \<lparr>m_a = 1, m_b = 1\<rparr> \<lparr>m_a = 0, m_b = 0::real\<rparr> = Unspecified
   \<and> operator_div \<lparr>m_a = 1, m_b = 1\<rparr> \<lparr>m_a = 0, m_b = 0::real\<rparr> \<noteq> Raises DivideByZero
   \<and> operator_div \<lparr>m_a = 1, m_b = 1\<rparr> \<lparr>m_a = 0, m_b = 0::real\<rparr> \<noteq> Raises DomainError
   \<and> inverted \<lparr>m_a = 0, m_b = 1::real\<rparr> = Unspecified
   \<and> inverted \<lparr>m_a = 0, m_b = 1::real\<rparr> \<noteq> Raises DivideByZero
   \<and> inverted \<lparr>m_a = 0, m_b = 1::real\<rparr> \<noteq> Raises DomainError"
  by (simp add: operator_div_def operator_div_assign_zero inverted_zero)

text \<open>
  C5 as amended: for every dual number \<open>p\<close>, dividing \<open>p\<close> by a dual number \<open>q\<close> whose
  value component is \<open>0\<close>, and inverting \<open>q\<close>, raises no error; the call returns a
  result with what the component type gives for a quotient by zero in it.
\<close>

theorem division_by_zero_unchecked:
  "m_a q = 0 \<Longrightarrow>
     operator_div p q = Unspecified \<and> inverted q = Unspecified
     \<and> operator_div p q \<noteq> Raises e \<and> inverted q \<noteq> Raises e"
  by (cases q) (simp add: operator_div_def operator_div_assign_zero inverted_zero)

text \<open>C5 as amended, at \<open>(3, 2) / (0, 5)\<close> and at the inversion of \<open>(0, 5)\<close>.\<close>

theorem division_by_zero_unchecked_witness:
  "m_a \<lparr>m_a = 0, m_b = 5::real\<rparr> = 0
   \<and> operator_div \<lparr>m_a = 3, m_b = 2\<rparr> \<lparr>m_a = 0, m_b = 5::real\<rparr> = Unspecified
   \<and> inverted \<lparr>m_a = 0, m_b = 5::real\<rparr> = Unspecified"
  using division_by_zero_unchecked [of "\<lparr>m_a = 0, m_b = 5::real\<rparr>" "\<lparr>m_a = 3, m_b = 2\<rparr>"]
  by simp

section \<open>Rounding in \<open>double\<close>\<close>

text \<open>Powers of two.\<close>

lemma pow2_pos: "0 < pow2 e"
  by (simp add: pow2_def)

lemma pow2_add: "pow2 (i + j) = pow2 i * pow2 j"
  by (simp add: pow2_def power_int_add)

lemma pow2_mono: "i \<le> j \<Longrightarrow> pow2 i \<le> pow2 j"
  by (simp add: pow2_def power_int_increasing)

lemma pow2_strict_mono: "i < j \<Longrightarrow> pow2 i < pow2 j"
  by (simp add: pow2_def power_int_strict_increasing)

lemma pow2_less_iff: "pow2 i < pow2 j \<longleftrightarrow> i < j"
  using pow2_mono [of j i] pow2_strict_mono [of i j] by (cases "i < j") auto

lemma pow2_le_iff: "pow2 i \<le> pow2 j \<longleftrightarrow> i \<le> j"
  using pow2_mono [of i j] pow2_strict_mono [of j i] by (cases "i \<le> j") auto

lemma bitlen_pow2_bounds:
  assumes "0 < n"
  shows "pow2 (bitlen n - 1) \<le> of_int n" and "of_int n < pow2 (bitlen n)"
proof -
  from bitlen_bounds [OF assms]
  have l: "2 ^ nat (bitlen n - 1) \<le> n" and u: "n < 2 ^ nat (bitlen n)" by simp_all
  have b1: "1 \<le> bitlen n" using assms by (simp add: bitlen_alt_def)
  have "(of_int (2 ^ nat (bitlen n - 1)) :: rat) \<le> of_int n" using l by (simp only: of_int_le_iff)
  then show "pow2 (bitlen n - 1) \<le> of_int n"
    using b1 by (simp add: pow2_def power_int_def)
  have "(of_int n :: rat) < of_int (2 ^ nat (bitlen n))" using u by (simp only: of_int_less_iff)
  then show "of_int n < pow2 (bitlen n)"
    using b1 by (simp add: pow2_def power_int_def)
qed

lemma binade_bounds:
  assumes "x \<noteq> 0"
  shows "pow2 (binade x) \<le> \<bar>x\<bar> \<and> \<bar>x\<bar> < pow2 (binade x + 1)"
proof -
  obtain n d where q: "quotient_of \<bar>x\<bar> = (n, d)" by (cases "quotient_of \<bar>x\<bar>")
  have d: "0 < d" using q quotient_of_denom_pos by blast
  have x: "\<bar>x\<bar> = of_int n / of_int d" using q quotient_of_div by blast
  have "0 < \<bar>x\<bar>" using assms by simp
  then have n: "0 < n" using x d by (simp add: zero_less_divide_iff)
  define k where "k = bitlen n - bitlen d"
  have dpos: "(0::rat) < of_int d" using d by simp
  have lo: "pow2 (k - 1) \<le> \<bar>x\<bar>"
  proof -
    have "pow2 (k - 1) * of_int d \<le> pow2 (k - 1) * pow2 (bitlen d)"
      using bitlen_pow2_bounds(2) [OF d] pow2_pos [of "k - 1"] by simp
    also have "\<dots> = pow2 (bitlen n - 1)"
      by (simp add: k_def flip: pow2_add)
    also have "\<dots> \<le> of_int n" using bitlen_pow2_bounds(1) [OF n] .
    finally show ?thesis using dpos by (simp add: x pos_le_divide_eq)
  qed
  have hi: "\<bar>x\<bar> < pow2 (k + 1)"
  proof -
    have "of_int n < pow2 (bitlen n)" using bitlen_pow2_bounds(2) [OF n] .
    also have "\<dots> = pow2 (k + 1) * pow2 (bitlen d - 1)"
      by (simp add: k_def flip: pow2_add)
    also have "\<dots> \<le> pow2 (k + 1) * of_int d"
      using bitlen_pow2_bounds(1) [OF d] pow2_pos [of "k + 1"] by simp
    finally show ?thesis using dpos by (simp add: x pos_divide_less_eq)
  qed
  show ?thesis
  proof (cases "pow2 k \<le> \<bar>x\<bar>")
    case True
    then have "binade x = k" by (simp add: binade_def q k_def)
    then show ?thesis using True hi by simp
  next
    case False
    then have "binade x = k - 1" by (simp add: binade_def q k_def)
    then show ?thesis using False lo by simp
  qed
qed

lemma binade_unique:
  assumes "pow2 e \<le> \<bar>x\<bar>" and "\<bar>x\<bar> < pow2 (e + 1)"
  shows "binade x = e"
proof -
  have "x \<noteq> 0" using assms(1) pow2_pos [of e] by auto
  from binade_bounds [OF this]
  have b: "pow2 (binade x) \<le> \<bar>x\<bar>" "\<bar>x\<bar> < pow2 (binade x + 1)" by simp_all
  have "pow2 (binade x) < pow2 (e + 1)" using b(1) assms(2) by simp
  then have "binade x < e + 1" by (simp only: pow2_less_iff)
  moreover have "pow2 e < pow2 (binade x + 1)" using b(2) assms(1) by simp
  then have "e < binade x + 1" by (simp only: pow2_less_iff)
  ultimately show ?thesis by simp
qed

lemma round_half_even_error: "\<bar>of_int (round_half_even y) - y\<bar> \<le> 1 / 2"
proof -
  have "of_int \<lfloor>y\<rfloor> \<le> y" "y < of_int \<lfloor>y\<rfloor> + 1" by linarith+
  then show ?thesis by (auto simp add: round_half_even_def Let_def)
qed


lemma round_to_double_normal:
  assumes lo: "pow2 e \<le> \<bar>x\<bar>" and hi: "\<bar>x\<bar> < pow2 (e + 1)"
    and e: "- 1022 \<le> e" "e \<le> 1022"
  shows "round_to_double x = Returns (of_int (round_half_even (x / pow2 (e - 52))) * pow2 (e - 52))"
    and "\<bar>of_int (round_half_even (x / pow2 (e - 52))) * pow2 (e - 52) - x\<bar> \<le> pow2 (e - 53)"
proof -
  define q where "q = pow2 (e - 52)"
  define y where "y = of_int (round_half_even (x / q)) * q"
  have q: "0 < q" by (simp add: q_def pow2_pos)
  have x0: "x \<noteq> 0" using lo pow2_pos [of e] by auto
  have b: "binade x = e" using binade_unique [OF lo hi] .
  have "\<bar>y - x\<bar> = \<bar>of_int (round_half_even (x / q)) - x / q\<bar> * q"
    using q by (simp add: y_def abs_mult field_simps flip: abs_mult_pos)
  also have "\<dots> \<le> (1 / 2) * q"
    using round_half_even_error [of "x / q"] q by (simp add: mult_right_mono)
  also have "\<dots> = pow2 (e - 53)"
    using pow2_add [of "e - 53" 1] by (simp add: q_def pow2_def)
  finally have err: "\<bar>y - x\<bar> \<le> pow2 (e - 53)" .
  then show "\<bar>of_int (round_half_even (x / pow2 (e - 52))) * pow2 (e - 52) - x\<bar> \<le> pow2 (e - 53)"
    by (simp add: y_def q_def)
  have "\<bar>y\<bar> \<le> \<bar>x\<bar> + pow2 (e - 53)" using err by linarith
  also have "\<dots> < pow2 (e + 1) + pow2 (e + 1)"
    using hi pow2_strict_mono [of "e - 53" "e + 1"] by simp
  also have "\<dots> = pow2 (e + 2)" using pow2_add [of "e + 1" 1] by (simp add: pow2_def ac_simps)
  also have "\<dots> \<le> pow2 1024" using e by (simp add: pow2_le_iff)
  finally have "\<not> pow2 1024 \<le> \<bar>y\<bar>" by simp
  then show "round_to_double x = Returns (of_int (round_half_even (x / pow2 (e - 52))) * pow2 (e - 52))"
    using x0 b e by (simp add: round_to_double_def Let_def y_def q_def max_def)
qed


text \<open>Evaluation of one rounding, given the binade of the exact result.\<close>

lemma round_to_double_at:
  assumes "pow2 e \<le> \<bar>x\<bar>" and "\<bar>x\<bar> < pow2 (e + 1)" and "- 1022 \<le> e" and "e \<le> 1022"
    and "of_int (round_half_even (x / pow2 (e - 52))) * pow2 (e - 52) = y"
  shows "round_to_double x = Returns y"
  using round_to_double_normal(1) [OF assms(1-4)] assms(5) by simp

lemma floor_rat_numeral: "\<lfloor>numeral a / numeral b :: rat\<rfloor> = numeral a div numeral b"
  by (metis floor_divide_of_int_eq of_int_numeral)

lemma floor_rat_neg_numeral:
  "\<lfloor>- (numeral a / numeral b) :: rat\<rfloor> = - numeral a div numeral b"
  by (metis floor_divide_of_int_eq of_int_numeral of_int_minus minus_divide_left)

text \<open>
  One rounding of a result in the normal range multiplies it by a factor between
  \<open>1 - 2 ^ - 53\<close> and \<open>1 + 2 ^ - 53\<close>.
\<close>

lemma pow2_minus: "pow2 (- e) = 1 / pow2 e"
  by (simp add: pow2_def power_int_minus field_simps)

lemma rounding_factor_bounds:
  assumes "rounding_factor r"
  shows "pow2 (- 1) \<le> r" and "r \<le> pow2 1" and "0 < r"
proof -
  have "pow2 (- 53) \<le> 1 / 2" by (simp add: pow2_def)
  then show "pow2 (- 1) \<le> r" and "r \<le> pow2 1" and "0 < r"
    using assms by (simp_all add: rounding_factor_def pow2_def)
qed

lemma rounding_factor_one: "rounding_factor 1"
  by (simp add: rounding_factor_def pow2_def)

lemma magnitude_nonzero: "magnitude_within i j x \<Longrightarrow> x \<noteq> 0"
  using pow2_pos [of i] by (auto simp add: magnitude_within_def)

lemma magnitude_minus: "magnitude_within i j (- x) = magnitude_within i j x"
  by (simp add: magnitude_within_def)

lemma magnitude_mult:
  assumes "magnitude_within i j x" and "magnitude_within i' j' y"
  shows "magnitude_within (i + i') (j + j') (x * y)"
proof -
  have "pow2 i * pow2 i' \<le> \<bar>x\<bar> * \<bar>y\<bar>"
    using assms pow2_pos [of i] pow2_pos [of i']
    by (intro mult_mono) (simp_all add: magnitude_within_def)
  moreover have "\<bar>x\<bar> * \<bar>y\<bar> \<le> pow2 j * pow2 j'"
    using assms pow2_pos [of j]
    by (intro mult_mono) (simp_all add: magnitude_within_def)
  ultimately show ?thesis by (simp add: magnitude_within_def pow2_add abs_mult)
qed

lemma magnitude_inverse:
  assumes "magnitude_within i j x"
  shows "magnitude_within (- j) (- i) (1 / x)"
proof -
  have x: "0 < \<bar>x\<bar>" using magnitude_nonzero [OF assms] by simp
  have "1 / pow2 j \<le> 1 / \<bar>x\<bar>"
    using assms x by (intro divide_left_mono) (simp_all add: magnitude_within_def pow2_pos)
  moreover have "1 / \<bar>x\<bar> \<le> 1 / pow2 i"
    using assms x pow2_pos [of i] by (intro divide_left_mono) (simp_all add: magnitude_within_def)
  ultimately show ?thesis by (simp add: magnitude_within_def pow2_minus)
qed

lemma magnitude_divide:
  assumes "magnitude_within i j x" and "magnitude_within i' j' y"
  shows "magnitude_within (i - j') (j - i') (x / y)"
  using magnitude_mult [OF assms(1) magnitude_inverse [OF assms(2)]] by simp

lemma magnitude_scale:
  assumes "rounding_factor r" and "magnitude_within i j x"
  shows "magnitude_within (i - 1) (j + 1) (r * x)"
proof -
  have "magnitude_within (- 1) 1 r"
    using rounding_factor_bounds [OF assms(1)] by (simp add: magnitude_within_def)
  from magnitude_mult [OF this assms(2)] show ?thesis by (simp add: algebra_simps)
qed

lemma magnitude_weaken:
  "magnitude_within i j x \<Longrightarrow> i' \<le> i \<Longrightarrow> j \<le> j' \<Longrightarrow> magnitude_within i' j' x"
  using pow2_mono [of i' i] pow2_mono [of j j'] by (simp add: magnitude_within_def)

lemma round_to_double_relative:
  assumes m: "magnitude_within i j x" and r: "- 1022 \<le> i" "j \<le> 1022"
  shows "\<exists>r. rounding_factor r \<and> round_to_double x = Returns (r * x)"
proof -
  have x0: "x \<noteq> 0" using magnitude_nonzero [OF m] .
  define e where "e = binade x"
  have b: "pow2 e \<le> \<bar>x\<bar>" "\<bar>x\<bar> < pow2 (e + 1)"
    using binade_bounds [OF x0] by (simp_all add: e_def)
  have "pow2 i < pow2 (e + 1)" using m b(2) by (simp add: magnitude_within_def)
  then have ie: "i \<le> e" by (simp add: pow2_less_iff)
  have "pow2 e \<le> pow2 j" using m b(1) by (simp add: magnitude_within_def)
  then have ej: "e \<le> j" by (simp add: pow2_le_iff)
  have e: "- 1022 \<le> e" "e \<le> 1022" using ie ej r by simp_all
  define y where "y = of_int (round_half_even (x / pow2 (e - 52))) * pow2 (e - 52)"
  have ry: "round_to_double x = Returns y"
    using round_to_double_normal(1) [OF b e] by (simp add: y_def)
  have "\<bar>y - x\<bar> \<le> pow2 (e - 53)"
    using round_to_double_normal(2) [OF b e] by (simp add: y_def)
  also have "\<dots> = pow2 e * pow2 (- 53)" using pow2_add [of e "- 53"] by simp
  also have "\<dots> \<le> \<bar>x\<bar> * pow2 (- 53)" using b(1) pow2_pos [of "- 53"] by simp
  finally have err: "\<bar>y - x\<bar> \<le> \<bar>x\<bar> * pow2 (- 53)" .
  have "\<bar>y / x - 1\<bar> = \<bar>y - x\<bar> / \<bar>x\<bar>"
    using x0 by (simp add: field_simps flip: abs_divide)
  also have "\<dots> \<le> pow2 (- 53)"
    using err x0 by (simp add: field_simps)
  finally have "rounding_factor (y / x)" by (simp add: rounding_factor_def abs_le_iff)
  moreover have "y = (y / x) * x" using x0 by simp
  ultimately show ?thesis using ry by metis
qed

lemma round_to_double_relative_or_zero:
  assumes "x = 0 \<or> magnitude_within i j x" and "- 1022 \<le> i" "j \<le> 1022"
  shows "\<exists>r. rounding_factor r \<and> round_to_double x = Returns (r * x)"
proof (cases "x = 0")
  case True
  then show ?thesis using rounding_factor_one by (auto simp add: round_to_double_def)
next
  case False
  then show ?thesis using assms round_to_double_relative by blast
qed

text \<open>
  The quotients of rounding factors that two inversions leave on the value component
  and on the derivative component.
\<close>

lemma rounding_factor_quotient2:
  assumes "rounding_factor r1" and "rounding_factor r2"
  shows "\<bar>r2 / r1 - 1\<bar> \<le> pow2 (- 51)"
proof -
  define L :: rat where "L = 1 - pow2 (- 53)"
  define U :: rat where "U = 1 + pow2 (- 53)"
  have L: "0 < L" by (simp add: L_def pow2_def)
  have r: "L \<le> r1" "r1 \<le> U" "L \<le> r2" "r2 \<le> U"
    using assms by (simp_all add: rounding_factor_def L_def U_def)
  have "r2 / r1 \<le> U / L" using r L by (intro frac_le) simp_all
  also have "\<dots> \<le> 1 + pow2 (- 51)" by (simp add: L_def U_def pow2_def)
  finally have up: "r2 / r1 \<le> 1 + pow2 (- 51)" .
  have "1 - pow2 (- 51) \<le> L / U" by (simp add: L_def U_def pow2_def)
  also have "\<dots> \<le> r2 / r1" using r L by (intro frac_le) simp_all
  finally show ?thesis using up by (simp add: abs_le_iff)
qed

lemma rounding_factor_quotient6:
  assumes "rounding_factor r2" and "rounding_factor r3" and "rounding_factor r4"
    and "rounding_factor r5" and "rounding_factor r6"
  shows "\<bar>r4 * r6 / (r3 * r5 * (r2 * r2)) - 1\<bar> \<le> pow2 (- 50)"
proof -
  define L :: rat where "L = 1 - pow2 (- 53)"
  define U :: rat where "U = 1 + pow2 (- 53)"
  have L: "0 < L" by (simp add: L_def pow2_def)
  have U: "0 < U" by (simp add: U_def pow2_def)
  have r: "L \<le> r2" "r2 \<le> U" "L \<le> r3" "r3 \<le> U" "L \<le> r4" "r4 \<le> U"
    "L \<le> r5" "r5 \<le> U" "L \<le> r6" "r6 \<le> U"
    using assms by (simp_all add: rounding_factor_def L_def U_def)
  have p: "0 < r2" "0 < r3" "0 < r4" "0 < r5" "0 < r6" using r L by linarith+
  have n_lo: "L * L \<le> r4 * r6" using r L by (intro mult_mono) simp_all
  have n_hi: "r4 * r6 \<le> U * U" using r p by (intro mult_mono) simp_all
  have d_lo: "L * L * (L * L) \<le> r3 * r5 * (r2 * r2)"
    using r L by (intro mult_mono mult_nonneg_nonneg) simp_all
  have d_hi: "r3 * r5 * (r2 * r2) \<le> U * U * (U * U)"
    using r p U by (intro mult_mono mult_nonneg_nonneg) simp_all
  have d_pos: "0 < r3 * r5 * (r2 * r2)" using p by simp
  have "r4 * r6 / (r3 * r5 * (r2 * r2)) \<le> U * U / (L * L * (L * L))"
    using n_hi d_lo L p by (intro frac_le) simp_all
  also have "\<dots> \<le> 1 + pow2 (- 50)" by (simp add: L_def U_def pow2_def)
  finally have up: "r4 * r6 / (r3 * r5 * (r2 * r2)) \<le> 1 + pow2 (- 50)" .
  have "1 - pow2 (- 50) \<le> L * L / (U * U * (U * U))" by (simp add: L_def U_def pow2_def)
  also have "\<dots> \<le> r4 * r6 / (r3 * r5 * (r2 * r2))"
    using n_lo d_hi d_pos L U p by (intro frac_le) simp_all
  finally show ?thesis using up by (simp add: abs_le_iff)
qed

lemma inverted_double_once:
  assumes a: "magnitude_within (- k) k a"
    and b: "b = 0 \<or> magnitude_within (- m) m b"
    and k: "2 * k + m + 3 \<le> 1022" "0 \<le> k" "0 \<le> m"
  shows "\<exists>a1 b1 r1 r3 r4. rounding_factor r1 \<and> rounding_factor r3 \<and> rounding_factor r4
      \<and> inverted_double \<lparr>m_a = a, m_b = b\<rparr> = Returns \<lparr>m_a = a1, m_b = b1\<rparr>
      \<and> a1 = r1 * (1 / a) \<and> b1 = r4 * (b / - (r3 * (a1 * a1)))
      \<and> magnitude_within (- (k + 1)) (k + 1) a1
      \<and> (b1 = 0 \<or> magnitude_within (- (m + 2 * k + 4)) (m + 2 * k + 4) b1)"
proof -
  have a0: "a \<noteq> 0" using magnitude_nonzero [OF a] .
  have m1: "magnitude_within (- k) k (1 / a)" using magnitude_inverse [OF a] by simp
  obtain r1 where r1: "rounding_factor r1" "round_to_double (1 / a) = Returns (r1 * (1 / a))"
    using round_to_double_relative [OF m1] k by auto
  define a1 where "a1 = r1 * (1 / a)"
  have ma1: "magnitude_within (- (k + 1)) (k + 1) a1"
    using magnitude_weaken [OF magnitude_scale [OF r1(1) m1], of "- (k + 1)" "k + 1"]
    by (simp add: a1_def)
  have msq: "magnitude_within (- (2 * k + 2)) (2 * k + 2) (a1 * a1)"
    using magnitude_weaken [OF magnitude_mult [OF ma1 ma1], of "- (2 * k + 2)" "2 * k + 2"]
    by simp
  obtain r3 where r3: "rounding_factor r3" "round_to_double (a1 * a1) = Returns (r3 * (a1 * a1))"
    using round_to_double_relative [OF msq] k by auto
  define t where "t = r3 * (a1 * a1)"
  have mt: "magnitude_within (- (2 * k + 3)) (2 * k + 3) (- t)"
    using magnitude_weaken [OF magnitude_scale [OF r3(1) msq], of "- (2 * k + 3)" "2 * k + 3"]
    by (simp add: t_def magnitude_minus)
  have t0: "- t \<noteq> 0" using magnitude_nonzero [OF mt] .
  have mq: "b / - t = 0 \<or> magnitude_within (- (m + 2 * k + 3)) (m + 2 * k + 3) (b / - t)"
  proof (cases "b = 0")
    case True
    then show ?thesis by simp
  next
    case False
    then have "magnitude_within (- m) m b" using b by simp
    from magnitude_weaken [OF magnitude_divide [OF this mt],
        of "- (m + 2 * k + 3)" "m + 2 * k + 3"]
    show ?thesis by simp
  qed
  obtain r4 where r4: "rounding_factor r4" "round_to_double (b / - t) = Returns (r4 * (b / - t))"
    using round_to_double_relative_or_zero [OF mq] k by auto
  define b1 where "b1 = r4 * (b / - t)"
  have mb1: "b1 = 0 \<or> magnitude_within (- (m + 2 * k + 4)) (m + 2 * k + 4) b1"
  proof (cases "b / - t = 0")
    case True
    then show ?thesis by (simp add: b1_def)
  next
    case False
    then have "magnitude_within (- (m + 2 * k + 3)) (m + 2 * k + 3) (b / - t)" using mq by simp
    from magnitude_weaken [OF magnitude_scale [OF r4(1) this],
        of "- (m + 2 * k + 4)" "m + 2 * k + 4"]
    show ?thesis by (simp add: b1_def)
  qed
  have d1: "double_div 1 a = Returns a1"
    using a0 r1(2) by (simp add: double_div_def a1_def)
  have d2: "double_mul a1 a1 = Returns t"
    using r3(2) by (simp add: double_mul_def t_def)
  have d3: "double_div b (- t) = Returns b1"
    using t0 r4(2) by (simp add: double_div_def b1_def)
  have "inverted_double \<lparr>m_a = a, m_b = b\<rparr> = Returns \<lparr>m_a = a1, m_b = b1\<rparr>"
    by (simp add: inverted_double_def d1 d2 d3)
  then show ?thesis using r1(1) r3(1) r4(1) ma1 mb1 a1_def b1_def t_def by blast
qed

lemma inverted_double_twice:
  assumes a: "magnitude_within (- 200) 200 a"
    and b: "b = 0 \<or> magnitude_within (- 200) 200 b"
  shows "\<exists>a2 b2. and_then (inverted_double \<lparr>m_a = a, m_b = b\<rparr>) inverted_double
        = Returns \<lparr>m_a = a2, m_b = b2\<rparr>
      \<and> \<bar>a2 - a\<bar> \<le> \<bar>a\<bar> * pow2 (- 51) \<and> \<bar>b2 - b\<bar> \<le> \<bar>b\<bar> * pow2 (- 50)"
proof -
  have a0: "a \<noteq> 0" using magnitude_nonzero [OF a] .
  have "\<exists>a1 b1 r1 r3 r4. rounding_factor r1 \<and> rounding_factor r3 \<and> rounding_factor r4
      \<and> inverted_double \<lparr>m_a = a, m_b = b\<rparr> = Returns \<lparr>m_a = a1, m_b = b1\<rparr>
      \<and> a1 = r1 * (1 / a) \<and> b1 = r4 * (b / - (r3 * (a1 * a1)))
      \<and> magnitude_within (- (200 + 1)) (200 + 1) a1
      \<and> (b1 = 0 \<or> magnitude_within (- (200 + 2 * 200 + 4)) (200 + 2 * 200 + 4) b1)"
    by (rule inverted_double_once [OF a b]) simp_all
  then obtain a1 b1 r1 r3 r4 where f1: "rounding_factor r1" "rounding_factor r3" "rounding_factor r4"
    and i1: "inverted_double \<lparr>m_a = a, m_b = b\<rparr> = Returns \<lparr>m_a = a1, m_b = b1\<rparr>"
    and e1: "a1 = r1 * (1 / a)" "b1 = r4 * (b / - (r3 * (a1 * a1)))"
    and ma1: "magnitude_within (- (200 + 1)) (200 + 1) a1"
    and mb1: "b1 = 0 \<or> magnitude_within (- (200 + 2 * 200 + 4)) (200 + 2 * 200 + 4) b1"
    by blast
  have ma1': "magnitude_within (- 201) 201 a1" using ma1 by simp
  have mb1': "b1 = 0 \<or> magnitude_within (- 604) 604 b1" using mb1 by simp
  have "\<exists>a2 b2 r2 r5 r6. rounding_factor r2 \<and> rounding_factor r5 \<and> rounding_factor r6
      \<and> inverted_double \<lparr>m_a = a1, m_b = b1\<rparr> = Returns \<lparr>m_a = a2, m_b = b2\<rparr>
      \<and> a2 = r2 * (1 / a1) \<and> b2 = r6 * (b1 / - (r5 * (a2 * a2)))
      \<and> magnitude_within (- (201 + 1)) (201 + 1) a2
      \<and> (b2 = 0 \<or> magnitude_within (- (604 + 2 * 201 + 4)) (604 + 2 * 201 + 4) b2)"
    by (rule inverted_double_once [OF ma1' mb1']) simp_all
  then obtain a2 b2 r2 r5 r6 where f2: "rounding_factor r2" "rounding_factor r5" "rounding_factor r6"
    and i2: "inverted_double \<lparr>m_a = a1, m_b = b1\<rparr> = Returns \<lparr>m_a = a2, m_b = b2\<rparr>"
    and e2: "a2 = r2 * (1 / a1)" "b2 = r6 * (b1 / - (r5 * (a2 * a2)))"
    by blast
  have p: "0 < r1" "0 < r2" "0 < r3" "0 < r5"
    using f1 f2 rounding_factor_bounds(3) by blast+
  have a2: "a2 = (r2 / r1) * a" using a0 p by (simp add: e1 e2)
  have "a1 * a2 = r2" using a0 p by (simp add: e1 e2)
  then have sq: "(a1 * a1) * (a2 * a2) = r2 * r2" by (simp add: mult.commute mult.left_commute)
  have "b2 = r4 * r6 * b / ((r3 * r5) * ((a1 * a1) * (a2 * a2)))"
    by (simp add: e1(2) e2(2) mult_ac)
  then have b2: "b2 = (r4 * r6 / (r3 * r5 * (r2 * r2))) * b" by (simp add: sq)
  have "\<bar>a2 - a\<bar> = \<bar>r2 / r1 - 1\<bar> * \<bar>a\<bar>"
    by (simp add: a2 flip: abs_mult) (simp add: algebra_simps)
  also have "\<dots> \<le> pow2 (- 51) * \<bar>a\<bar>"
    using rounding_factor_quotient2 [OF f1(1) f2(1)] by (intro mult_right_mono) simp_all
  finally have ea: "\<bar>a2 - a\<bar> \<le> \<bar>a\<bar> * pow2 (- 51)" by (simp add: mult.commute)
  have "\<bar>b2 - b\<bar> = \<bar>r4 * r6 / (r3 * r5 * (r2 * r2)) - 1\<bar> * \<bar>b\<bar>"
    by (simp add: b2 flip: abs_mult) (simp add: algebra_simps)
  also have "\<dots> \<le> pow2 (- 50) * \<bar>b\<bar>"
    using rounding_factor_quotient6 [OF f2(1) f1(2) f1(3) f2(2) f2(3)]
    by (intro mult_right_mono) simp_all
  finally have eb: "\<bar>b2 - b\<bar> \<le> \<bar>b\<bar> * pow2 (- 50)" by (simp add: mult.commute)
  show ?thesis using i1 i2 ea eb by simp
qed

text \<open>The six roundings of two inversions of \<open>(49, 1)\<close>.\<close>

lemma inverted_49_1_quotient:
  "round_to_double
     (1 / 49)
   = Returns (5882252574524729 / 288230376151711744)"
  by (rule round_to_double_at [where e = "- 6"])
    (simp_all add: pow2_def round_half_even_def Let_def floor_rat_numeral
      floor_rat_neg_numeral)

lemma inverted_49_1_square:
  "round_to_double
     ((5882252574524729 / 288230376151711744)
      * (5882252574524729 / 288230376151711744))
   = Returns (7682942138154747 / 18446744073709551616)"
  by (rule round_to_double_at [where e = "- 12"])
    (simp_all add: pow2_def round_half_even_def Let_def floor_rat_numeral
      floor_rat_neg_numeral)

lemma inverted_49_1_derivative:
  "round_to_double
     (1 / - (7682942138154747 / 18446744073709551616))
   = Returns (- (5279854836580353 / 2199023255552))"
  by (rule round_to_double_at [where e = "11"])
    (simp_all add: pow2_def round_half_even_def Let_def floor_rat_numeral
      floor_rat_neg_numeral)

lemma inverted_twice_49_1_quotient:
  "round_to_double
     (1 / (5882252574524729 / 288230376151711744))
   = Returns (6896136929411073 / 140737488355328)"
  by (rule round_to_double_at [where e = "5"])
    (simp_all add: pow2_def round_half_even_def Let_def floor_rat_numeral
      floor_rat_neg_numeral)

lemma inverted_twice_49_1_square:
  "round_to_double
     ((6896136929411073 / 140737488355328)
      * (6896136929411073 / 140737488355328))
   = Returns (2639927418290177 / 1099511627776)"
  by (rule round_to_double_at [where e = "11"])
    (simp_all add: pow2_def round_half_even_def Let_def floor_rat_numeral
      floor_rat_neg_numeral)

lemma inverted_twice_49_1_derivative:
  "round_to_double
     ((- (5279854836580353 / 2199023255552))
      / - (2639927418290177 / 1099511627776))
   = Returns (4503599627370495 / 4503599627370496)"
  by (rule round_to_double_at [where e = "- 1"])
    (simp_all add: pow2_def round_half_even_def Let_def floor_rat_numeral
      floor_rat_neg_numeral)

lemma inverted_double_49_1:
  "inverted_double \<lparr>m_a = 49, m_b = 1\<rparr>
   = Returns \<lparr>m_a = 5882252574524729 / 288230376151711744,
              m_b = - (5279854836580353 / 2199023255552)\<rparr>"
  unfolding inverted_double_def double_div_def double_mul_def
  using inverted_49_1_quotient inverted_49_1_square inverted_49_1_derivative by simp

lemma inverted_double_twice_49_1:
  "inverted_double \<lparr>m_a = 5882252574524729 / 288230376151711744,
                    m_b = - (5279854836580353 / 2199023255552)\<rparr>
   = Returns \<lparr>m_a = 6896136929411073 / 140737488355328, m_b = 4503599627370495 / 4503599627370496\<rparr>"
  unfolding inverted_double_def double_div_def double_mul_def
  using inverted_twice_49_1_quotient inverted_twice_49_1_square
    inverted_twice_49_1_derivative by simp

section \<open>Involutions\<close>

text \<open>
  C6 as the claim states it: for every dual number \<open>p\<close> with a nonzero value component,
  inverting twice returns \<open>p\<close>. With \<open>double\<close> components, at \<open>p = (49, 1)\<close>, inverting
  twice returns \<open>(49 + 2 ^ - 47, 1 - 2 ^ - 52)\<close>, which is not \<open>p\<close>.
\<close>

theorem inverted_double_twice_not_identity:
  "and_then (inverted_double \<lparr>m_a = 49, m_b = 1\<rparr>) inverted_double
     = Returns \<lparr>m_a = 6896136929411073 / 140737488355328,
                m_b = 4503599627370495 / 4503599627370496\<rparr>
   \<and> and_then (inverted_double \<lparr>m_a = 49, m_b = 1\<rparr>) inverted_double
     \<noteq> Returns \<lparr>m_a = 49, m_b = 1\<rparr>
   \<and> (6896136929411073 / 140737488355328 :: rat) = 49 + 1 / 2 ^ 47
   \<and> (4503599627370495 / 4503599627370496 :: rat) = 1 - 1 / 2 ^ 52"
  by (simp add: inverted_double_49_1 inverted_double_twice_49_1)

text \<open>
  C6 as amended. For every dual number \<open>q\<close>, conjugating twice returns \<open>q\<close>. Where the
  division and the multiplication of the component type are exact (a field), for
  every dual number \<open>p\<close> with a nonzero value component inverting twice returns \<open>p\<close>.
  With \<open>double\<close> components inverting twice returns \<open>p\<close> up to rounding: for
  \<open>p = (a, b)\<close> with \<open>2 ^ - 200 \<le> |a| \<le> 2 ^ 200\<close>, and \<open>b = 0\<close> or
  \<open>2 ^ - 200 \<le> |b| \<le> 2 ^ 200\<close>, it returns a dual number \<open>(a', b')\<close> with
  \<open>|a' - a| \<le> |a| * 2 ^ - 51\<close> and \<open>|b' - b| \<le> |b| * 2 ^ - 50\<close>.
\<close>

theorem conjugation_involution_inversion_up_to_rounding:
  "conjugated (conjugated q) = q
   \<and> (m_a p \<noteq> 0 \<longrightarrow> and_then (inverted p) inverted = Returns p)
   \<and> (pow2 (- 200) \<le> \<bar>a\<bar> \<and> \<bar>a\<bar> \<le> pow2 200
        \<and> (b = 0 \<or> pow2 (- 200) \<le> \<bar>b\<bar> \<and> \<bar>b\<bar> \<le> pow2 200) \<longrightarrow>
      (\<exists>a' b'. and_then (inverted_double \<lparr>m_a = a, m_b = b\<rparr>) inverted_double
                  = Returns \<lparr>m_a = a', m_b = b'\<rparr>
               \<and> \<bar>a' - a\<bar> \<le> \<bar>a\<bar> * pow2 (- 51) \<and> \<bar>b' - b\<bar> \<le> \<bar>b\<bar> * pow2 (- 50)))"
proof (intro conjI impI)
  show "conjugated (conjugated q) = q"
    by (simp add: conjugated_def)
  show "and_then (inverted p) inverted = Returns p" if "m_a p \<noteq> 0"
    using that by (cases p) (simp add: inverted_returns power2_eq_square)
  show "\<exists>a' b'. and_then (inverted_double \<lparr>m_a = a, m_b = b\<rparr>) inverted_double
                  = Returns \<lparr>m_a = a', m_b = b'\<rparr>
               \<and> \<bar>a' - a\<bar> \<le> \<bar>a\<bar> * pow2 (- 51) \<and> \<bar>b' - b\<bar> \<le> \<bar>b\<bar> * pow2 (- 50)"
    if "pow2 (- 200) \<le> \<bar>a\<bar> \<and> \<bar>a\<bar> \<le> pow2 200
        \<and> (b = 0 \<or> pow2 (- 200) \<le> \<bar>b\<bar> \<and> \<bar>b\<bar> \<le> pow2 200)"
    using that inverted_double_twice [of a b] by (simp add: magnitude_within_def)
qed

text \<open>
  C6 as amended, at \<open>q = (0, 3)\<close>, at \<open>p = (2, 1)\<close> over the reals, and at \<open>(49, 1)\<close>
  with \<open>double\<close> components, where the result is \<open>(49 + 2 ^ - 47, 1 - 2 ^ - 52)\<close>.
\<close>

theorem conjugation_involution_inversion_up_to_rounding_witness:
  "conjugated (conjugated \<lparr>m_a = 0, m_b = 3::real\<rparr>) = \<lparr>m_a = 0, m_b = 3\<rparr>
   \<and> m_a \<lparr>m_a = 2, m_b = 1::real\<rparr> \<noteq> 0
   \<and> and_then (inverted \<lparr>m_a = 2, m_b = 1::real\<rparr>) inverted = Returns \<lparr>m_a = 2, m_b = 1\<rparr>
   \<and> pow2 (- 200) \<le> \<bar>49\<bar> \<and> \<bar>49\<bar> \<le> pow2 200
   \<and> pow2 (- 200) \<le> \<bar>1\<bar> \<and> \<bar>1\<bar> \<le> pow2 200
   \<and> (\<exists>a' b'. and_then (inverted_double \<lparr>m_a = 49, m_b = 1\<rparr>) inverted_double
                  = Returns \<lparr>m_a = a', m_b = b'\<rparr>
               \<and> \<bar>a' - 49\<bar> \<le> \<bar>49\<bar> * pow2 (- 51) \<and> \<bar>b' - 1\<bar> \<le> \<bar>1\<bar> * pow2 (- 50))"
proof -
  have r: "pow2 (- 200) \<le> \<bar>49\<bar>" "\<bar>49\<bar> \<le> pow2 200" "pow2 (- 200) \<le> \<bar>1\<bar>" "\<bar>1\<bar> \<le> pow2 200"
    by (simp_all add: pow2_def)
  from conjugation_involution_inversion_up_to_rounding
    [where q = "\<lparr>m_a = 0, m_b = 3::real\<rparr>" and p = "\<lparr>m_a = 2, m_b = 1::real\<rparr>"
      and a = 49 and b = 1]
  show ?thesis using r by simp
qed

section \<open>Comparison\<close>

text \<open>
  C7. Over a totally ordered component type, for all dual numbers \<open>(a, b)\<close> and
  \<open>(c, d)\<close>: they are equal if and only if \<open>a = c\<close> and \<open>b = d\<close>; the first is less
  than the second if and only if \<open>a < c\<close>, or \<open>a = c\<close> and \<open>b < d\<close>; and \<open>!=\<close>, \<open><=\<close>,
  \<open>>\<close>, \<open>>=\<close> are the negation of equality and the lexicographic \<open>\<le>\<close>, \<open>>\<close>, \<open>\<ge>\<close>.
\<close>

theorem comparison_lexicographic:
  fixes a b c d :: "'a::linorder"
  shows "operator_eq \<lparr>m_a = a, m_b = b\<rparr> \<lparr>m_a = c, m_b = d\<rparr> = (a = c \<and> b = d)
   \<and> operator_less \<lparr>m_a = a, m_b = b\<rparr> \<lparr>m_a = c, m_b = d\<rparr> = (a < c \<or> (a = c \<and> b < d))
   \<and> operator_neq \<lparr>m_a = a, m_b = b\<rparr> \<lparr>m_a = c, m_b = d\<rparr> = (\<not> (a = c \<and> b = d))
   \<and> operator_le \<lparr>m_a = a, m_b = b\<rparr> \<lparr>m_a = c, m_b = d\<rparr> = (a < c \<or> (a = c \<and> b \<le> d))
   \<and> operator_gt \<lparr>m_a = a, m_b = b\<rparr> \<lparr>m_a = c, m_b = d\<rparr> = (c < a \<or> (a = c \<and> d < b))
   \<and> operator_ge \<lparr>m_a = a, m_b = b\<rparr> \<lparr>m_a = c, m_b = d\<rparr> = (c < a \<or> (a = c \<and> d \<le> b))"
  by (auto simp add: operator_eq_def operator_less_def operator_neq_def operator_le_def
      operator_gt_def operator_ge_def tie_eq_def tie_less_def)

section \<open>Increment and decrement\<close>

text \<open>
  C8. For every dual number \<open>(a, b)\<close> the prefix and postfix increment leave
  \<open>(a + 1, b)\<close> in the object and the prefix and postfix decrement leave \<open>(a - 1, b)\<close>:
  only the value component changes. The prefix forms return the object, the postfix
  forms return the old value.
\<close>

theorem increment_decrement_value_only:
  "pre_increment \<lparr>m_a = a, m_b = b\<rparr> = \<lparr>m_a = a + 1, m_b = b\<rparr>
   \<and> pre_decrement \<lparr>m_a = a, m_b = b\<rparr> = \<lparr>m_a = a - 1, m_b = b\<rparr>
   \<and> fst (post_increment \<lparr>m_a = a, m_b = b\<rparr>) = \<lparr>m_a = a + 1, m_b = b\<rparr>
   \<and> fst (post_decrement \<lparr>m_a = a, m_b = b\<rparr>) = \<lparr>m_a = a - 1, m_b = b\<rparr>
   \<and> snd (post_increment \<lparr>m_a = a, m_b = b\<rparr>) = \<lparr>m_a = a, m_b = b\<rparr>
   \<and> snd (post_decrement \<lparr>m_a = a, m_b = b\<rparr>) = \<lparr>m_a = a, m_b = b\<rparr>"
  by (simp add: pre_increment_def pre_decrement_def post_increment_def post_decrement_def)

section \<open>The named constants\<close>

text \<open>
  C9. \<open>ID_Mul()\<close> returns \<open>(0, 0)\<close>, the value that \<open>Zero()\<close> and \<open>ID_Add()\<close> return,
  and there is a dual number \<open>p\<close> with \<open>p * ID_Mul() \<noteq> p\<close>: the value is no unit of
  the multiplication.
\<close>

theorem ID_Mul_is_zero:
  "(ID_Mul :: 'a::field dual) = \<lparr>m_a = 0, m_b = 0\<rparr> \<and> (ID_Mul :: 'a dual) = Zero
   \<and> (ID_Mul :: 'a dual) = ID_Add
   \<and> (\<exists>p :: 'a dual. operator_mul p ID_Mul \<noteq> p)"
proof -
  have "operator_mul \<lparr>m_a = 1, m_b = 0\<rparr> ID_Mul \<noteq> \<lparr>m_a = 1 :: 'a, m_b = 0\<rparr>"
    by (simp add: operator_mul_def operator_mul_assign_def ID_Mul_def)
  then have "\<exists>p :: 'a dual. operator_mul p ID_Mul \<noteq> p" by blast
  then show ?thesis by (simp add: ID_Mul_def ID_Add_def Zero_def)
qed

section \<open>The free functions on a reference\<close>



end
